theory Spec2Isabelle
  imports Main "HOL-Library.Sublist"
begin

text \<open>
  A model of libgqlts, a typed GraphQL client: \<^verbatim>\<open>Query.typed\<close> compiles a shape (a
  nested mapping of field names to validators) into the text of a query and into a
  validator for the response, and \<^verbatim>\<open>execute\<close> sends the query and classifies the
  response. The functions modelled are those of the source file that holds the class
  \<^verbatim>\<open>Query\<close> with variables, arguments and array templates, of \<^verbatim>\<open>errors.ts\<close> and of
  \<^verbatim>\<open>zodExtensions.ts\<close>. The validation library is outside the repository: its schema
  objects are opaque values, \<^verbatim>\<open>z.array\<close> and \<^verbatim>\<open>z.object\<close> are constructors, and its
  parsing is a parameter of \<^verbatim>\<open>execute\<close>.
\<close>

section \<open>Run-time values\<close>

text \<open>
  The shape passed to \<^verbatim>\<open>Query.typed\<close> and the body of a response are ordinary
  JavaScript values. \<open>Object es\<close> is a plain object whose own enumerable properties are
  \<open>es\<close>, in the order \<^verbatim>\<open>Object.entries\<close> lists them (insertion order, for keys that
  are not array indices). \<open>ZodType i n ps\<close> is a schema object of the validation
  library: \<open>i\<close> identifies the validator, \<open>n\<close> is the name that \<^verbatim>\<open>named\<close> stored for it
  in the side table of \<^verbatim>\<open>zodExtensions.ts\<close> (\<open>None\<close> when \<^verbatim>\<open>name()\<close> returns
  \<^verbatim>\<open>undefined\<close>), and \<open>ps\<close> are the own enumerable properties the library gave the
  object. \<open>Function src\<close> is a function with source text \<open>src\<close>.

  The code never computes with a number: it tests one for truth and converts one to a
  string. A number is therefore given by the text that string conversion yields for it
  (\<^verbatim>\<open>12\<close>, \<^verbatim>\<open>-3\<close>, \<^verbatim>\<open>1.5\<close>, \<^verbatim>\<open>1e+21\<close>, \<^verbatim>\<open>NaN\<close>); both zeros have the text \<^verbatim>\<open>0\<close>.
\<close>

type_synonym js_number = string

datatype jsval =
    Undefined
  | Null
  | Boolean bool
  | Number js_number
  | String string
  | Function string
  | Array "jsval list"
  | Object "(string \<times> jsval) list"
  | ZodType nat "string option" "(string \<times> jsval) list"

text \<open>The type declarations of \<^verbatim>\<open>errors.ts\<close>; \<^verbatim>\<open>extensions\<close> is never read.\<close>

datatype GraphQLErrorLocation = GraphQLErrorLocation (line: js_number) (column: js_number)

datatype GraphQLError =
  GraphQLError (message: string)
    (locations: "GraphQLErrorLocation list option")
    (path: "string list option")

text \<open>
  What a call can throw: an \<^verbatim>\<open>Error\<close> object with its message and the
  \<^verbatim>\<open>graphqlErrors\<close> property (\<open>None\<close> when the property was never attached), a
  \<^verbatim>\<open>TypeError\<close> of the runtime, or, since \<^verbatim>\<open>throw\<close> accepts any value, \<^verbatim>\<open>null\<close>.
\<close>

datatype thrown =
    Error string "GraphQLError list option"
  | TypeError
  | ThrownNull

section \<open>Primitives of the language\<close>

fun typeof :: "jsval \<Rightarrow> string" where
  "typeof Undefined = ''undefined''"
| "typeof Null = ''object''"
| "typeof (Boolean b) = ''boolean''"
| "typeof (Number n) = ''number''"
| "typeof (String s) = ''string''"
| "typeof (Function src) = ''function''"
| "typeof (Array xs) = ''object''"
| "typeof (Object es) = ''object''"
| "typeof (ZodType i n ps) = ''object''"

fun truthy :: "jsval \<Rightarrow> bool" where
  "truthy Undefined = False"
| "truthy Null = False"
| "truthy (Boolean b) = b"
| "truthy (Number n) = (n \<noteq> ''0'' \<and> n \<noteq> ''NaN'')"
| "truthy (String s) = (s \<noteq> [])"
| "truthy (Function src) = True"
| "truthy (Array xs) = True"
| "truthy (Object es) = True"
| "truthy (ZodType i n ps) = True"

text \<open>\<^verbatim>\<open>Array.prototype.join\<close> on an array of strings.\<close>

fun join :: "string \<Rightarrow> string list \<Rightarrow> string" where
  "join sep [] = []"
| "join sep [x] = x"
| "join sep (x # y # ys) = x @ sep @ join sep (y # ys)"

text \<open>Decimal rendering of an array index.\<close>

definition digit :: "nat \<Rightarrow> char" where
  "digit d = ''0123456789'' ! d"

fun show_nat :: "nat \<Rightarrow> string" where
  "show_nat n = (if n < 10 then [digit n] else show_nat (n div 10) @ [digit (n mod 10)])"

declare show_nat.simps [simp del]

text \<open>
  String conversion inside a template literal. An array joins its elements with a
  comma, \<^verbatim>\<open>null\<close> and \<^verbatim>\<open>undefined\<close> elements giving the empty string; an object
  without a \<^verbatim>\<open>toString\<close> of its own gives \<^verbatim>\<open>[object Object]\<close>.
\<close>

fun ToString :: "jsval \<Rightarrow> string" where
  "ToString Undefined = ''undefined''"
| "ToString Null = ''null''"
| "ToString (Boolean b) = (if b then ''true'' else ''false'')"
| "ToString (Number n) = n"
| "ToString (String s) = s"
| "ToString (Function src) = src"
| "ToString (Array xs) =
     join '','' (map (\<lambda>x. if x = Null \<or> x = Undefined then [] else ToString x) xs)"
| "ToString (Object es) = ''[object Object]''"
| "ToString (ZodType i n ps) = ''[object Object]''"

text \<open>The entries of an array or of a string are keyed by the decimal index.\<close>

definition indexed :: "'a list \<Rightarrow> (string \<times> 'a) list" where
  "indexed xs = zip (map show_nat [0..<length xs]) xs"

text \<open>
  \<^verbatim>\<open>Object.entries\<close>: a \<^verbatim>\<open>TypeError\<close> on \<^verbatim>\<open>null\<close> and \<^verbatim>\<open>undefined\<close>, nothing for
  a boolean, a number or a function, the characters of a string, the elements of an
  array, the own properties of an object.
\<close>

fun Object_entries :: "jsval \<Rightarrow> thrown + (string \<times> jsval) list" where
  "Object_entries Undefined = Inl TypeError"
| "Object_entries Null = Inl TypeError"
| "Object_entries (Boolean b) = Inr []"
| "Object_entries (Number n) = Inr []"
| "Object_entries (String s) = Inr (indexed (map (\<lambda>c. String [c]) s))"
| "Object_entries (Function src) = Inr []"
| "Object_entries (Array xs) = Inr (indexed xs)"
| "Object_entries (Object es) = Inr es"
| "Object_entries (ZodType i n ps) = Inr ps"

text \<open>
  Reading a property by name. Only the names \<^verbatim>\<open>_args\<close>, \<^verbatim>\<open>parse\<close>, \<^verbatim>\<open>safeParse\<close>
  and \<^verbatim>\<open>_def\<close> are read by the code; a plain object has them only as own
  properties, and an array, a function or a primitive value has none of them. Reading
  from \<^verbatim>\<open>null\<close> or \<^verbatim>\<open>undefined\<close> is a \<^verbatim>\<open>TypeError\<close>.
\<close>

fun get_prop :: "jsval \<Rightarrow> string \<Rightarrow> thrown + jsval" where
  "get_prop Undefined k = Inl TypeError"
| "get_prop Null k = Inl TypeError"
| "get_prop (Object es) k = Inr (case map_of es k of None \<Rightarrow> Undefined | Some v \<Rightarrow> v)"
| "get_prop (ZodType i n ps) k = Inr (case map_of ps k of None \<Rightarrow> Undefined | Some v \<Rightarrow> v)"
| "get_prop v k = Inr Undefined"

text \<open>
  Assignment \<^verbatim>\<open>o[key] = value\<close> of an object to a property of a plain object: the
  property is replaced in place or added at the end. The key \<^verbatim>\<open>__proto__\<close> is the
  exception: the assignment sets the prototype of \<^verbatim>\<open>o\<close> and gives it no property.
\<close>

fun put_prop :: "(string \<times> 'v) list \<Rightarrow> string \<Rightarrow> 'v \<Rightarrow> (string \<times> 'v) list" where
  "put_prop [] k v = [(k, v)]"
| "put_prop ((k', v') # es) k v =
     (if k' = k then (k, v) # es else (k', v') # put_prop es k v)"

fun set_prop :: "(string \<times> 'v) list \<Rightarrow> string \<Rightarrow> 'v \<Rightarrow> (string \<times> 'v) list" where
  "set_prop es k v = (if k = ''__proto__'' then es else put_prop es k v)"

section \<open>The query compiler\<close>

text \<open>
  \<^verbatim>\<open>isZodSchema\<close>: not \<^verbatim>\<open>null\<close>, of type \<^verbatim>\<open>object\<close>, with functions \<^verbatim>\<open>parse\<close> and
  \<^verbatim>\<open>safeParse\<close> and an object \<^verbatim>\<open>_def\<close>. Every schema of the library passes (it
  has the three members, own or inherited); any other value is probed through its
  properties.
\<close>

fun has_typeof :: "thrown + jsval \<Rightarrow> string \<Rightarrow> bool" where
  "has_typeof (Inl e) t = False"
| "has_typeof (Inr v) t = (typeof v = t)"

fun isZodSchema :: "jsval \<Rightarrow> bool" where
  "isZodSchema (ZodType i n ps) = True"
| "isZodSchema v =
     (if v = Null \<or> typeof v \<noteq> ''object'' then False
      else has_typeof (get_prop v ''parse'') ''function'' \<and>
           has_typeof (get_prop v ''safeParse'') ''function'' \<and>
           has_typeof (get_prop v ''_def'') ''object'')"

text \<open>
  The argument list of a field, from the value of its \<^verbatim>\<open>_args\<close> property:
  \<^verbatim>\<open>if (args && typeof args === "object")\<close>, then one \<^verbatim>\<open>name: value\<close> part per
  entry, in parentheses when there is at least one part.
\<close>

definition argsString_of :: "jsval \<Rightarrow> string" where
  "argsString_of args =
     (if truthy args \<and> typeof args = ''object'' then
        (case Object_entries args of
           Inl e \<Rightarrow> []
         | Inr aes \<Rightarrow>
             (let argParts = map (\<lambda>(argName, argValue). argName @ '': '' @ ToString argValue) aes
              in if length argParts > 0 then ''('' @ join '', '' argParts @ '')'' else []))
      else [])"

text \<open>
  The measure of both compilers' recursion: a value of type \<^verbatim>\<open>object\<close>, the only
  kind the loops enter again, weighs one more than its size, any other value nothing.
\<close>

definition weight :: "jsval \<Rightarrow> nat" where
  "weight v = (if typeof v = ''object'' then Suc (size v) else 0)"

definition entries_weight :: "(string \<times> jsval) list \<Rightarrow> nat" where
  "entries_weight es = sum_list (map (\<lambda>kv. weight (snd kv)) es)"

text \<open>
  \<^verbatim>\<open>buildGraphQLQuery\<close>, with its \<^verbatim>\<open>for\<close> loop over the entries as the second
  function; \<open>queryParts\<close> is the array the loop pushes to.
\<close>

function buildGraphQLQuery :: "jsval \<Rightarrow> thrown + string"
  and buildGraphQLQuery_loop :: "(string \<times> jsval) list \<Rightarrow> string list \<Rightarrow> thrown + string list"
where
  "buildGraphQLQuery shape =
     (case Object_entries shape of
        Inl e \<Rightarrow> Inl e
      | Inr es \<Rightarrow>
          (case buildGraphQLQuery_loop es [] of
             Inl e \<Rightarrow> Inl e
           | Inr queryParts \<Rightarrow> Inr (join '' '' queryParts)))"
| "buildGraphQLQuery_loop [] queryParts = Inr queryParts"
| "buildGraphQLQuery_loop ((key, value) # rest) queryParts =
     (if key = ''_args'' then buildGraphQLQuery_loop rest queryParts
      else if isZodSchema value then buildGraphQLQuery_loop rest (queryParts @ [key])
      else
        (case value of
           Array (template # others) \<Rightarrow>
             (case buildGraphQLQuery template of
                Inl e \<Rightarrow> Inl e
              | Inr sel \<Rightarrow>
                  buildGraphQLQuery_loop rest (queryParts @ [key @ '' { '' @ sel @ '' }'']))
         | _ \<Rightarrow>
             if typeof value = ''object'' then
               (case get_prop value ''_args'' of
                  Inl e \<Rightarrow> Inl e
                | Inr args \<Rightarrow>
                    (case buildGraphQLQuery value of
                       Inl e \<Rightarrow> Inl e
                     | Inr sel \<Rightarrow>
                         buildGraphQLQuery_loop rest
                           (queryParts @ [key @ argsString_of args @ '' { '' @ sel @ '' }''])))
             else buildGraphQLQuery_loop rest queryParts))"
  by pat_completeness auto

termination buildGraphQLQuery
proof (relation "inv_image (less_than <*lex*> less_than <*lex*> less_than)
     (\<lambda>x. case x of Inl shape \<Rightarrow> (size shape, 1::nat, 0::nat)
                   | Inr (es, qp) \<Rightarrow> (entries_weight es, 0, length es))", goal_cases)
  case (2 shape es)
  have w: "weight v \<le> Suc (size v)" for v
    by (simp add: weight_def)
  have a: "sum_list (map weight xs) \<le> size_list size xs" for xs :: "jsval list"
  proof (induction xs)
    case (Cons x xs)
    then show ?case using w [of x] by simp
  qed simp
  have b: "entries_weight ps \<le> size_list (size_prod (\<lambda>x. 0) size) ps" for ps
  proof (induction ps)
    case (Cons p ps)
    then show ?case using w [of "snd p"] by (cases p) (simp add: entries_weight_def)
  qed (simp add: entries_weight_def)
  have c: "entries_weight (indexed xs) = sum_list (map weight xs)" for xs
  proof -
    have "map (\<lambda>kv. weight (snd kv)) (indexed xs) = map weight (map snd (indexed xs))"
      by simp
    also have "map snd (indexed xs) = xs"
      by (simp add: indexed_def)
    finally show ?thesis by (simp add: entries_weight_def)
  qed
  have d: "entries_weight [] = 0"
    by (simp add: entries_weight_def)
  have e: "sum_list (map weight (map (\<lambda>c. String [c]) s)) = 0" for s
    by (induction s) (simp_all add: weight_def)
  have "entries_weight es \<le> size shape"
    using 2 a b by (cases shape) (auto simp: c d e le_SucI weight_def)
  then show ?case by auto
qed (auto simp: entries_weight_def weight_def)

section \<open>The validator compiler\<close>

text \<open>
  The schemas the compiler builds: \<open>ZodLeaf v\<close> is the value \<open>v\<close> of the shape stored
  as it is, \<open>ZodArray s\<close> is \<^verbatim>\<open>z.array(s)\<close>, and \<open>ZodObject fs\<close> is \<^verbatim>\<open>z.object(fs)\<close>
  with the properties of \<open>fs\<close> in order.
\<close>

datatype zod_schema =
    ZodLeaf jsval
  | ZodArray zod_schema
  | ZodObject "(string \<times> zod_schema) list"

text \<open>
  \<^verbatim>\<open>createZodSchemaFromShape\<close> and its loop; \<open>schemaShape\<close> is the record the loop
  fills. The two calls of \<^verbatim>\<open>console\<close> write diagnostics and are left out.
\<close>

function createZodSchemaFromShape :: "jsval \<Rightarrow> thrown + zod_schema"
  and createZodSchemaFromShape_loop ::
    "(string \<times> jsval) list \<Rightarrow> (string \<times> zod_schema) list
       \<Rightarrow> thrown + (string \<times> zod_schema) list"
where
  "createZodSchemaFromShape shape =
     (case Object_entries shape of
        Inl e \<Rightarrow> Inl e
      | Inr es \<Rightarrow>
          (case createZodSchemaFromShape_loop es [] of
             Inl e \<Rightarrow> Inl e
           | Inr schemaShape \<Rightarrow> Inr (ZodObject schemaShape)))"
| "createZodSchemaFromShape_loop [] schemaShape = Inr schemaShape"
| "createZodSchemaFromShape_loop ((key, value) # rest) schemaShape =
     (if key = ''_args'' then createZodSchemaFromShape_loop rest schemaShape
      else if isZodSchema value then
        createZodSchemaFromShape_loop rest (set_prop schemaShape key (ZodLeaf value))
      else
        (case value of
           Array (template # others) \<Rightarrow>
             (case createZodSchemaFromShape template of
                Inl e \<Rightarrow> Inl e
              | Inr itemSchema \<Rightarrow>
                  createZodSchemaFromShape_loop rest
                    (set_prop schemaShape key (ZodArray itemSchema)))
         | _ \<Rightarrow>
             if typeof value = ''object'' then
               (case createZodSchemaFromShape value of
                  Inl e \<Rightarrow> Inl e
                | Inr nested \<Rightarrow>
                    createZodSchemaFromShape_loop rest (set_prop schemaShape key nested))
             else
               Inl (Error (''unexpected type <'' @ typeof value @ ''> in query shape key [''
                             @ key @ '']'') None)))"
  by pat_completeness auto

termination createZodSchemaFromShape
proof (relation "inv_image (less_than <*lex*> less_than <*lex*> less_than)
     (\<lambda>x. case x of Inl shape \<Rightarrow> (size shape, 1::nat, 0::nat)
                   | Inr (es, acc) \<Rightarrow> (entries_weight es, 0, length es))", goal_cases)
  case (2 shape es)
  have w: "weight v \<le> Suc (size v)" for v
    by (simp add: weight_def)
  have a: "sum_list (map weight xs) \<le> size_list size xs" for xs :: "jsval list"
  proof (induction xs)
    case (Cons x xs)
    then show ?case using w [of x] by simp
  qed simp
  have b: "entries_weight ps \<le> size_list (size_prod (\<lambda>x. 0) size) ps" for ps
  proof (induction ps)
    case (Cons p ps)
    then show ?case using w [of "snd p"] by (cases p) (simp add: entries_weight_def)
  qed (simp add: entries_weight_def)
  have c: "entries_weight (indexed xs) = sum_list (map weight xs)" for xs
  proof -
    have "map (\<lambda>kv. weight (snd kv)) (indexed xs) = map weight (map snd (indexed xs))"
      by simp
    also have "map snd (indexed xs) = xs"
      by (simp add: indexed_def)
    finally show ?thesis by (simp add: entries_weight_def)
  qed
  have d: "entries_weight [] = 0"
    by (simp add: entries_weight_def)
  have e: "sum_list (map weight (map (\<lambda>c. String [c]) s)) = 0" for s
    by (induction s) (simp_all add: weight_def)
  have "entries_weight es \<le> size shape"
    using 2 a b by (cases shape) (auto simp: c d e le_SucI weight_def)
  then show ?case by auto
qed (auto simp: entries_weight_def weight_def)

section \<open>The typed query\<close>

text \<open>The class \<^verbatim>\<open>Query\<close>: its three private fields, set once by the constructor.\<close>

record Query =
  url :: string
  query :: string
  schema :: "zod_schema option"

definition fromString :: "string \<Rightarrow> string \<Rightarrow> zod_schema option \<Rightarrow> Query" where
  "fromString endpoint queryString sch = \<lparr>url = endpoint, query = queryString, schema = sch\<rparr>"

definition toString :: "Query \<Rightarrow> string" where
  "toString q = query q"

text \<open>\<^verbatim>\<open>throws\<close> of \<^verbatim>\<open>errors.ts\<close>: it never returns.\<close>

definition throws :: "string \<Rightarrow> thrown + 'a" where
  "throws msg = Inl (Error msg None)"

text \<open>
  The call \<^verbatim>\<open>t.name()\<close> on a variable's validator: the name stored for a schema, or
  \<^verbatim>\<open>undefined\<close>. A value that is not a schema has no such method, and the call is a
  \<^verbatim>\<open>TypeError\<close>.
\<close>

fun name_of :: "jsval \<Rightarrow> thrown + string option" where
  "name_of (ZodType i n ps) = Inr n"
| "name_of v = Inl TypeError"

text \<open>
  The callback mapped over \<^verbatim>\<open>Object.entries(variables)\<close> in \<^verbatim>\<open>Query.typed\<close>, and
  the map itself, which stops at the first entry whose callback throws.
\<close>

definition variable_part :: "string \<times> jsval \<Rightarrow> thrown + string" where
  "variable_part vt =
     (case name_of (snd vt) of
        Inl e \<Rightarrow> Inl e
      | Inr None \<Rightarrow> throws (''variable '' @ fst vt @ '' type not named'')
      | Inr (Some n) \<Rightarrow> Inr (''$'' @ fst vt @ '':'' @ n))"

fun variable_parts :: "(string \<times> jsval) list \<Rightarrow> thrown + string list" where
  "variable_parts [] = Inr []"
| "variable_parts (vt # rest) =
     (case variable_part vt of
        Inl e \<Rightarrow> Inl e
      | Inr p \<Rightarrow> (case variable_parts rest of Inl e \<Rightarrow> Inl e | Inr ps \<Rightarrow> Inr (p # ps)))"

text \<open>
  \<^verbatim>\<open>Query.typed\<close> with a variable set (\<open>variables\<close> are the entries of the object the
  caller passes). The statements run in the order of the source: the variable list,
  the query text, the validator. The call of \<^verbatim>\<open>console.log\<close> is left out.
\<close>

definition typed :: "string \<Rightarrow> string \<Rightarrow> (string \<times> jsval) list \<Rightarrow> jsval \<Rightarrow> thrown + Query" where
  "typed endpoint name variables shape =
     (case (if length variables > 0
            then (case variable_parts variables of
                    Inl e \<Rightarrow> Inl e
                  | Inr ps \<Rightarrow> Inr (''('' @ join '','' ps @ '')''))
            else Inr []) of
        Inl e \<Rightarrow> Inl e
      | Inr argsString \<Rightarrow>
          (case buildGraphQLQuery shape of
             Inl e \<Rightarrow> Inl e
           | Inr body \<Rightarrow>
               (let queryString = ''query '' @ name @ argsString @ '' {'' @ body @ ''}''
                in case createZodSchemaFromShape shape of
                     Inl e \<Rightarrow> Inl e
                   | Inr sch \<Rightarrow>
                       Inr \<lparr>url = endpoint, query = queryString, schema = Some sch\<rparr>)))"

section \<open>Responses and execution\<close>

text \<open>
  The body of a response, once parsed: an object with or without a \<^verbatim>\<open>data\<close> property
  and with or without an \<^verbatim>\<open>errors\<close> property. The value of \<^verbatim>\<open>errors\<close> is an array of
  errors, or any value that is not an array (\<open>NotArray v\<close>, for a \<open>v\<close> that is no
  array). The source tests the array at run time and trusts the declared type for its
  elements, so the elements are modelled as \<^verbatim>\<open>errors.ts\<close> declares them.
\<close>

datatype errors_value = ErrorList "GraphQLError list" | NotArray jsval

record GraphQLResponse =
  data :: "jsval option"
  errors :: "errors_value option"

definition format_location :: "GraphQLErrorLocation \<Rightarrow> string" where
  "format_location loc =
     ''[line: '' @ line loc @ '', column: '' @ column loc @ '']''"

definition format_error :: "GraphQLError \<Rightarrow> string" where
  "format_error err =
     (let m0 = ''GraphQL Error: '' @ message err;
          m1 = (case locations err of
                  None \<Rightarrow> m0
                | Some locs \<Rightarrow>
                    if length locs > 0
                    then m0 @ ''\<newline>Location: '' @ join '', '' (map format_location locs)
                    else m0);
          m2 = (case path err of
                  None \<Rightarrow> m1
                | Some p \<Rightarrow> if length p > 0 then m1 @ ''\<newline>Path: '' @ join ''.'' p else m1)
      in m2)"

text \<open>
  \<^verbatim>\<open>createGraphQLError\<close> returns an \<^verbatim>\<open>Error\<close> with the list attached, or \<^verbatim>\<open>null\<close>;
  the result is given as the value \<^verbatim>\<open>execute\<close> goes on to throw.
\<close>

definition createGraphQLError :: "GraphQLResponse \<Rightarrow> thrown" where
  "createGraphQLError respObj =
     (case errors respObj of
        None \<Rightarrow> ThrownNull
      | Some (NotArray v) \<Rightarrow> ThrownNull
      | Some (ErrorList errs) \<Rightarrow>
          if length errs = 0 then ThrownNull
          else Error (join ''\<newline>\<newline>'' (map format_error errs)) (Some errs))"

text \<open>
  What \<^verbatim>\<open>fetch\<close> resolved to: the \<^verbatim>\<open>ok\<close> flag, the body as text, and the outcome of
  \<^verbatim>\<open>resp.json()\<close>, which rejects when the body is not JSON. A body that parses to
  \<^verbatim>\<open>null\<close> or to a primitive value, on which the test \<^verbatim>\<open>"data" in respObj\<close> raises a
  \<^verbatim>\<open>TypeError\<close>, is the outcome \<open>Inl TypeError\<close>; a body that parses to an array has
  neither property.
\<close>

record Response =
  ok :: bool
  body_text :: string
  body_json :: "thrown + GraphQLResponse"

text \<open>Reading \<^verbatim>\<open>respObj.data\<close>: \<^verbatim>\<open>undefined\<close> when the property is absent.\<close>

definition data_of :: "GraphQLResponse \<Rightarrow> jsval" where
  "data_of respObj = (case data respObj of None \<Rightarrow> Undefined | Some d \<Rightarrow> d)"

text \<open>
  \<^verbatim>\<open>execute\<close> from the point where the response has arrived. The request it sends
  (headers, body) has no part in what it does with the response. The validation
  library is a parameter: \<open>safeParseAsync s d\<close> is \<open>Inr v\<close> when schema \<open>s\<close> accepts
  \<open>d\<close> with output \<open>v\<close>, and \<open>Inl t\<close> when it rejects, \<open>t\<close> being the text of its error.
\<close>

definition execute ::
  "(zod_schema \<Rightarrow> jsval \<Rightarrow> string + jsval) \<Rightarrow> Query \<Rightarrow> Response \<Rightarrow> thrown + jsval" where
  "execute safeParseAsync q resp =
     (if \<not> ok resp then Inl (Error (body_text resp) None)
      else
        (case body_json resp of
           Inl e \<Rightarrow> Inl e
         | Inr respObj \<Rightarrow>
             if data respObj \<noteq> None \<and> truthy (data_of respObj) then
               (case schema q of
                  Some sch \<Rightarrow>
                    (case safeParseAsync sch (data_of respObj) of
                       Inr parsed \<Rightarrow> Inr parsed
                     | Inl problem \<Rightarrow> Inl (Error problem None))
                | None \<Rightarrow> Inr (data_of respObj))
             else Inl (createGraphQLError respObj)))"

section \<open>The specification: data model and expected results\<close>

text \<open>
  The message of a protocol failure as the specification words it: per error, the
  text \<^verbatim>\<open>GraphQL Error:\<close> and the error's message, a line listing the \<^verbatim>\<open>line\<close> and
  \<^verbatim>\<open>column\<close> pairs when there are locations, a line with the dot-joined path when
  there is a path, and a blank line between the blocks of consecutive errors.
\<close>

definition spec_location_line :: "GraphQLError \<Rightarrow> string" where
  "spec_location_line err =
     (case locations err of
        Some (l # ls) \<Rightarrow>
          ''\<newline>Location: '' @
          join '', '' (map (\<lambda>p. ''[line: '' @ line p @ '', column: '' @ column p @ '']'')
                       (l # ls))
      | _ \<Rightarrow> [])"

definition spec_path_line :: "GraphQLError \<Rightarrow> string" where
  "spec_path_line err =
     (case path err of Some (f # fs) \<Rightarrow> ''\<newline>Path: '' @ join ''.'' (f # fs) | _ \<Rightarrow> [])"

definition spec_error_message :: "GraphQLError list \<Rightarrow> string" where
  "spec_error_message errs =
     join ''\<newline>\<newline>''
       (map (\<lambda>err. ''GraphQL Error: '' @ message err @ spec_location_line err
                      @ spec_path_line err) errs)"

text \<open>
  The Shape Tree of the specification's data model: a leaf (an opaque validator with
  an optional type name, here with the identity, the name and the own properties of the
  schema object), an array node with its one template, an object node mapping field
  names to nodes, which may hold under the reserved key \<^verbatim>\<open>_args\<close> a mapping of argument
  names to literal strings.
\<close>

datatype shape_tree =
    Leaf nat "string option" "(string \<times> jsval) list"
  | ArrayNode shape_tree
  | ObjectNode "(string \<times> shape_tree) list"
  | ArgList "(string \<times> string) list"

text \<open>The value the caller writes for a tree, as in the example of the README.\<close>

fun embed :: "shape_tree \<Rightarrow> jsval"
  and embed_entries :: "(string \<times> shape_tree) list \<Rightarrow> (string \<times> jsval) list" where
  "embed (Leaf i n ps) = ZodType i n ps"
| "embed (ArrayNode t) = Array [embed t]"
| "embed (ObjectNode fs) = Object (embed_entries fs)"
| "embed (ArgList as) = Object (map (\<lambda>(a, v). (a, String v)) as)"
| "embed_entries [] = []"
| "embed_entries ((k, t) # fs) = (k, embed t) # embed_entries fs"

text \<open>
  A tree is well formed when every object node is a mapping (its keys are distinct),
  \<^verbatim>\<open>_args\<close> holds an argument list and every other key holds a node.
\<close>

fun well_formed :: "shape_tree \<Rightarrow> bool"
  and well_formed_entries :: "(string \<times> shape_tree) list \<Rightarrow> bool" where
  "well_formed (Leaf i n ps) = True"
| "well_formed (ArrayNode t) = well_formed t"
| "well_formed (ObjectNode fs) = (distinct (map fst fs) \<and> well_formed_entries fs)"
| "well_formed (ArgList as) = False"
| "well_formed_entries [] = True"
| "well_formed_entries ((k, t) # fs) =
     ((if k = ''_args'' then (case t of ArgList as \<Rightarrow> True | _ \<Rightarrow> False) else well_formed t)
      \<and> well_formed_entries fs)"

text \<open>Every template of an array node is itself a mapping.\<close>

fun mapping_templates :: "shape_tree \<Rightarrow> bool"
  and mapping_templates_entries :: "(string \<times> shape_tree) list \<Rightarrow> bool" where
  "mapping_templates (Leaf i n ps) = True"
| "mapping_templates (ArrayNode t) =
     ((case t of ObjectNode fs \<Rightarrow> True | _ \<Rightarrow> False) \<and> mapping_templates t)"
| "mapping_templates (ObjectNode fs) = mapping_templates_entries fs"
| "mapping_templates (ArgList as) = True"
| "mapping_templates_entries [] = True"
| "mapping_templates_entries ((k, t) # fs) =
     (mapping_templates t \<and> mapping_templates_entries fs)"

text \<open>No object node of the tree has the key \<^verbatim>\<open>_args\<close>.\<close>

fun no_args :: "shape_tree \<Rightarrow> bool"
  and no_args_entries :: "(string \<times> shape_tree) list \<Rightarrow> bool" where
  "no_args (Leaf i n ps) = True"
| "no_args (ArrayNode t) = no_args t"
| "no_args (ObjectNode fs) = no_args_entries fs"
| "no_args (ArgList as) = False"
| "no_args_entries [] = True"
| "no_args_entries ((k, t) # fs) = (k \<noteq> ''_args'' \<and> no_args t \<and> no_args_entries fs)"

text \<open>
  No object node of the tree has a field named \<^verbatim>\<open>__proto__\<close>, the one key that an
  assignment does not store as a property.
\<close>

fun storable_keys :: "shape_tree \<Rightarrow> bool"
  and storable_keys_entries :: "(string \<times> shape_tree) list \<Rightarrow> bool" where
  "storable_keys (Leaf i n ps) = True"
| "storable_keys (ArrayNode t) = storable_keys t"
| "storable_keys (ObjectNode fs) = storable_keys_entries fs"
| "storable_keys (ArgList as) = True"
| "storable_keys_entries [] = True"
| "storable_keys_entries ((k, t) # fs) =
     (k \<noteq> ''__proto__'' \<and> storable_keys t \<and> storable_keys_entries fs)"

text \<open>
  The Compiled Validator as the specification defines it: a leaf becomes its own
  validator, an array node the validator of sequences whose elements satisfy the
  compiled template, an object node the record validator over its children other than
  \<^verbatim>\<open>_args\<close>.
\<close>

fun spec_validator :: "shape_tree \<Rightarrow> zod_schema"
  and spec_record :: "(string \<times> shape_tree) list \<Rightarrow> (string \<times> zod_schema) list" where
  "spec_validator (Leaf i n ps) = ZodLeaf (ZodType i n ps)"
| "spec_validator (ArrayNode t) = ZodArray (spec_validator t)"
| "spec_validator (ObjectNode fs) = ZodObject (spec_record fs)"
| "spec_validator (ArgList as) = ZodObject []"
| "spec_record [] = []"
| "spec_record ((k, t) # fs) =
     (if k = ''_args'' then spec_record fs else (k, spec_validator t) # spec_record fs)"

text \<open>
  The argument list of a field as the specification writes it, from the mapping of
  argument names to literal strings: \<^verbatim>\<open>(arg1: val1, arg2: val2, ...)\<close> in the order of the
  mapping, and nothing at all, not even parentheses, when the mapping is empty.
\<close>

definition spec_arguments :: "(string \<times> string) list \<Rightarrow> string" where
  "spec_arguments as =
     (if as = [] then []
      else ''('' @ join '', '' (map (\<lambda>(a, v). a @ '': '' @ v) as) @ '')'')"

text \<open>
  The selection set as the specification defines it: a leaf child gives its name, an
  array child \<^verbatim>\<open>name { selection of the template }\<close>, an object child the name, its
  argument list and the selection of its children in braces; \<^verbatim>\<open>_args\<close> is skipped and
  the fields are joined in the order of the mapping. Only an object node has a
  selection set.
\<close>

definition spec_arguments_of :: "(string \<times> shape_tree) list \<Rightarrow> string" where
  "spec_arguments_of fs =
     (case map_of fs ''_args'' of Some (ArgList as) \<Rightarrow> spec_arguments as | _ \<Rightarrow> [])"

fun spec_selection :: "shape_tree \<Rightarrow> string"
  and spec_field :: "string \<Rightarrow> shape_tree \<Rightarrow> string"
  and spec_parts :: "(string \<times> shape_tree) list \<Rightarrow> string list" where
  "spec_selection (ObjectNode fs) = join '' '' (spec_parts fs)"
| "spec_selection (Leaf i n ps) = []"
| "spec_selection (ArrayNode t) = []"
| "spec_selection (ArgList as) = []"
| "spec_field k (Leaf i n ps) = k"
| "spec_field k (ArrayNode t) = k @ '' { '' @ spec_selection t @ '' }''"
| "spec_field k (ObjectNode fs) =
     k @ spec_arguments_of fs @ '' { '' @ join '' '' (spec_parts fs) @ '' }''"
| "spec_field k (ArgList as) = k"
| "spec_parts [] = []"
| "spec_parts ((k, t) # fs) =
     (if k = ''_args'' then spec_parts fs else spec_field k t # spec_parts fs)"

text \<open>
  The part of the text that belongs to a field \<open>k\<close> with child \<open>t\<close>: the name alone
  for a leaf; for an array node the name and, in braces, the text compiled from its
  template; for an object node the name and, in braces, the text compiled from the node
  itself.
\<close>

definition field_part :: "string \<Rightarrow> shape_tree \<Rightarrow> string \<Rightarrow> bool" where
  "field_part k t p =
     (case t of
        Leaf i n ps \<Rightarrow> p = k
      | ArrayNode template \<Rightarrow>
          (case buildGraphQLQuery (embed template) of
             Inl e \<Rightarrow> False | Inr sel \<Rightarrow> p = k @ '' { '' @ sel @ '' }'')
      | ObjectNode fs \<Rightarrow>
          (case buildGraphQLQuery (embed t) of
             Inl e \<Rightarrow> False | Inr sel \<Rightarrow> p = k @ '' { '' @ sel @ '' }'')
      | ArgList as \<Rightarrow> False)"

text \<open>
  The variable list as the specification writes it: \<^verbatim>\<open>($v1: Type1, $v2: Type2, ...)\<close>.
\<close>

definition spec_variable_list :: "(string \<times> string) list \<Rightarrow> string" where
  "spec_variable_list vs =
     ''('' @ join '', '' (map (\<lambda>(v, ty). ''$'' @ v @ '': '' @ ty) vs) @ '')''"

section \<open>Properties of the execution pipeline\<close>

lemma format_error_spec:
  "format_error err =
     ''GraphQL Error: '' @ message err @ spec_location_line err @ spec_path_line err"
  by (simp add: format_error_def spec_location_line_def spec_path_line_def
        format_location_def [abs_def] split: option.splits list.splits)

text \<open>
  C10. When the response is ok and its body parses to an envelope whose \<^verbatim>\<open>data\<close> is
  absent or falsy and whose \<^verbatim>\<open>errors\<close> is missing, not an array, or an empty array,
  \<^verbatim>\<open>createGraphQLError\<close> returns \<^verbatim>\<open>null\<close> and \<^verbatim>\<open>execute\<close> throws that \<^verbatim>\<open>null\<close>, not an
  \<^verbatim>\<open>Error\<close> object.
\<close>

theorem execute_throws_null:
  assumes "ok resp" and "body_json resp = Inr respObj"
    and "data respObj = None \<or> \<not> truthy (data_of respObj)"
    and "errors respObj = None \<or> (\<exists>v. errors respObj = Some (NotArray v))
           \<or> errors respObj = Some (ErrorList [])"
  shows "createGraphQLError respObj = ThrownNull
           \<and> execute safeParseAsync q resp = Inl ThrownNull"
proof -
  from assms(4) have "createGraphQLError respObj = ThrownNull"
    by (auto simp: createGraphQLError_def)
  with assms(1-3) show ?thesis
    by (auto simp: execute_def)
qed

text \<open>The body \<^verbatim>\<open>{"data": null}\<close>, received by a query without a validator.\<close>

theorem execute_throws_null_witness:
  "ok \<lparr>ok = True, body_text = ''{data: null}'',
        body_json = Inr \<lparr>data = Some Null, errors = None\<rparr>\<rparr>
   \<and> \<not> truthy (data_of \<lparr>data = Some Null, errors = None\<rparr>)
   \<and> execute (\<lambda>s d. Inr d) (fromString ''https://example.org/graphql'' ''{ a }'' None)
        \<lparr>ok = True, body_text = ''{data: null}'',
         body_json = Inr \<lparr>data = Some Null, errors = None\<rparr>\<rparr> = Inl ThrownNull"
proof -
  let ?env = "\<lparr>data = Some Null, errors = None\<rparr>"
  let ?resp = "\<lparr>ok = True, body_text = ''{data: null}'', body_json = Inr ?env\<rparr>"
  have h1: "ok ?resp" by simp
  have h2: "body_json ?resp = Inr ?env" by simp
  have h3: "data ?env = None \<or> \<not> truthy (data_of ?env)" by (simp add: data_of_def)
  have h4: "errors ?env = None \<or> (\<exists>v. errors ?env = Some (NotArray v))
              \<or> errors ?env = Some (ErrorList [])" by simp
  from execute_throws_null [OF h1 h2 h3 h4] h1 h3 show ?thesis by simp
qed

text \<open>
  The formatter itself: for a non-empty list of errors, whatever \<^verbatim>\<open>data\<close> holds,
  \<^verbatim>\<open>createGraphQLError\<close> returns an \<^verbatim>\<open>Error\<close> whose message is the specification's and to
  which the list is attached.
\<close>

lemma createGraphQLError_message:
  assumes "errors respObj = Some (ErrorList errs)" and "errs \<noteq> []"
  shows "createGraphQLError respObj = Error (spec_error_message errs) (Some errs)"
  using assms
  by (simp add: createGraphQLError_def spec_error_message_def format_error_spec [abs_def])

text \<open>
  \<^verbatim>\<open>execute\<close> throws that error on the one path that reaches the formatter, the path
  on which \<^verbatim>\<open>data\<close> is absent or falsy.
\<close>

lemma protocol_error_without_data:
  assumes "ok resp" and "body_json resp = Inr respObj"
    and "errors respObj = Some (ErrorList errs)" and "errs \<noteq> []"
    and "data respObj = None \<or> \<not> truthy (data_of respObj)"
  shows "execute safeParseAsync q resp = Inl (Error (spec_error_message errs) (Some errs))"
  using assms(1,2,5) createGraphQLError_message [OF assms(3,4)]
  by (auto simp: execute_def)

text \<open>
  The example of the specification: \<^verbatim>\<open>{errors: [{message: "Not found", path: ["user",
  "name"]}]}\<close> fails with a message that contains \<^verbatim>\<open>GraphQL Error: Not found\<close> and
  \<^verbatim>\<open>Path: user.name\<close>.
\<close>

lemma not_found_example:
  "execute (\<lambda>s d. Inr d) (fromString ''https://example.org/graphql'' ''{ user { name } }'' None)
     \<lparr>ok = True, body_text = ''{errors: [{message: Not found, path: [user, name]}]}'',
      body_json = Inr \<lparr>data = None,
        errors = Some (ErrorList [GraphQLError ''Not found'' None (Some [''user'', ''name''])])\<rparr>\<rparr>
     = Inl (Error ''GraphQL Error: Not found\<newline>Path: user.name''
             (Some [GraphQLError ''Not found'' None (Some [''user'', ''name''])]))
   \<and> sublist ''GraphQL Error: Not found'' ''GraphQL Error: Not found\<newline>Path: user.name''
   \<and> sublist ''Path: user.name'' ''GraphQL Error: Not found\<newline>Path: user.name''"
proof -
  let ?errs = "[GraphQLError ''Not found'' None (Some [''user'', ''name''])]"
  let ?env = "\<lparr>data = None, errors = Some (ErrorList ?errs)\<rparr>"
  let ?resp = "\<lparr>ok = True, body_text = ''{errors: [{message: Not found, path: [user, name]}]}'',
                body_json = Inr ?env\<rparr>"
  have "execute (\<lambda>s d. Inr d)
          (fromString ''https://example.org/graphql'' ''{ user { name } }'' None) ?resp
        = Inl (Error (spec_error_message ?errs) (Some ?errs))"
    by (rule protocol_error_without_data [of ?resp ?env ?errs]) simp_all
  moreover have "spec_error_message ?errs = ''GraphQL Error: Not found\<newline>Path: user.name''"
    by (simp add: spec_error_message_def spec_location_line_def spec_path_line_def)
  moreover have "sublist ''GraphQL Error: Not found''
                   (''GraphQL Error: Not found'' @ ''\<newline>Path: user.name'')"
    by (rule sublist_append_rightI)
  moreover have "sublist ''Path: user.name''
                   (''GraphQL Error: Not found\<newline>'' @ ''Path: user.name'')"
    by (rule sublist_append_leftI)
  ultimately show ?thesis by simp
qed

text \<open>
  C1. The claim: whenever the errors list is non-empty, \<^verbatim>\<open>execute\<close> fails with the
  protocol error, even if \<^verbatim>\<open>data\<close> is populated, and the README promises that GraphQL
  errors reject the promise of \<^verbatim>\<open>execute\<close>. The source tests \<^verbatim>\<open>data\<close> first. For the
  partial result \<^verbatim>\<open>{"data": {"a": 1}, "errors": [{"message": "boom"}]}\<close>, received by a
  query without a validator, \<^verbatim>\<open>execute\<close> returns the data, although the formatter
  would have built the protocol error from the same envelope.
\<close>

theorem errors_ignored_when_data_present:
  "execute (\<lambda>s d. Inr d) (fromString ''https://example.org/graphql'' ''{ a }'' None)
     \<lparr>ok = True, body_text = ''{data: {a: 1}, errors: [{message: boom}]}'',
      body_json = Inr \<lparr>data = Some (Object [(''a'', Number ''1'')]),
                        errors = Some (ErrorList [GraphQLError ''boom'' None None])\<rparr>\<rparr>
     = Inr (Object [(''a'', Number ''1'')])
   \<and> createGraphQLError \<lparr>data = Some (Object [(''a'', Number ''1'')]),
                          errors = Some (ErrorList [GraphQLError ''boom'' None None])\<rparr>
     = Error ''GraphQL Error: boom'' (Some [GraphQLError ''boom'' None None])"
  by (simp add: execute_def fromString_def data_of_def createGraphQLError_def format_error_def)

text \<open>
  C4. The claim: for every envelope with a non-empty errors list, the failure raised
  by \<^verbatim>\<open>execute\<close> has the formatted message and carries the list. With the body
  \<^verbatim>\<open>{"data": {"a": 1}, "errors": [{"message": "Not found", "path": ["user", "name"]}]}\<close> and
  a validator that rejects the data, the failure raised is the validation error: its
  message is the validator's text and no list is attached, although the formatter
  would have built the claimed message from the same envelope. The cause is the test
  of \<^verbatim>\<open>data\<close> before the errors list, as for C1.
\<close>

theorem validation_error_hides_protocol_error:
  "execute (\<lambda>s d. Inl ''Expected string, received number'')
     (fromString ''https://example.org/graphql'' ''{ a }''
        (Some (ZodObject [(''a'', ZodLeaf (ZodType 0 None []))])))
     \<lparr>ok = True, body_text = ''{data: {a: 1}, errors: [{message: Not found}]}'',
      body_json = Inr \<lparr>data = Some (Object [(''a'', Number ''1'')]),
                        errors = Some (ErrorList
                          [GraphQLError ''Not found'' None (Some [''user'', ''name''])])\<rparr>\<rparr>
     = Inl (Error ''Expected string, received number'' None)
   \<and> createGraphQLError \<lparr>data = Some (Object [(''a'', Number ''1'')]),
                          errors = Some (ErrorList
                            [GraphQLError ''Not found'' None (Some [''user'', ''name''])])\<rparr>
     = Error ''GraphQL Error: Not found\<newline>Path: user.name''
         (Some [GraphQLError ''Not found'' None (Some [''user'', ''name''])])"
  by (simp add: execute_def fromString_def data_of_def createGraphQLError_def format_error_def)

section \<open>Properties of construction\<close>

lemma variable_parts_unnamed:
  assumes "\<forall>vt \<in> set variables. name_of (snd vt) \<noteq> Inl TypeError"
    and "find (\<lambda>vt. name_of (snd vt) = Inr None) variables = Some (v, t)"
  shows "variable_parts variables = Inl (Error (''variable '' @ v @ '' type not named'') None)"
  using assms
proof (induction variables)
  case Nil
  then show ?case by simp
next
  case (Cons vt rest)
  show ?case
  proof (cases "name_of (snd vt)")
    case (Inl e)
    with Cons.prems(1) show ?thesis by (cases "snd vt") auto
  next
    case (Inr n)
    show ?thesis
    proof (cases n)
      case None
      with Inr Cons.prems(2) have "vt = (v, t)" by simp
      with Inr None show ?thesis by (simp add: variable_part_def throws_def)
    next
      case (Some ty)
      with Inr Cons.prems have "find (\<lambda>vt. name_of (snd vt) = Inr None) rest = Some (v, t)"
        and "\<forall>vt \<in> set rest. name_of (snd vt) \<noteq> Inl TypeError" by simp_all
      with Cons.IH have "variable_parts rest
          = Inl (Error (''variable '' @ v @ '' type not named'') None)" by simp
      with Inr Some show ?thesis by (simp add: variable_part_def)
    qed
  qed
qed

text \<open>
  C5. In a construction with variables, all of them schemas, where some variable has
  no type name, \<^verbatim>\<open>Query.typed\<close> throws the error \<^verbatim>\<open>variable v type not named\<close> for the
  first such variable \<open>v\<close>. It does so for every shape, also one the query compiler
  would itself reject: the failure comes from the variable list, the first statement
  of the constructor, so no query text exists yet and no \<^verbatim>\<open>Query\<close> on which
  \<^verbatim>\<open>execute\<close> could send a request.
\<close>

theorem unnamed_variable_fails_first:
  assumes "\<forall>vt \<in> set variables. name_of (snd vt) \<noteq> Inl TypeError"
    and "find (\<lambda>vt. name_of (snd vt) = Inr None) variables = Some (v, t)"
  shows "typed endpoint name variables shape
           = Inl (Error (''variable '' @ v @ '' type not named'') None)"
proof -
  from assms(2) have "variables \<noteq> []" by auto
  with variable_parts_unnamed [OF assms] show ?thesis
    by (simp add: typed_def)
qed

text \<open>
  Two variables, the second unnamed, and a shape on which \<^verbatim>\<open>buildGraphQLQuery\<close> alone
  raises a \<^verbatim>\<open>TypeError\<close>: the constructor reports the variable.
\<close>

theorem unnamed_variable_fails_first_witness:
  "find (\<lambda>vt. name_of (snd vt) = Inr None)
     [(''userId'', ZodType 0 (Some ''Int'') []), (''type'', ZodType 1 None [])]
     = Some (''type'', ZodType 1 None [])
   \<and> buildGraphQLQuery (Object [(''Viewer'', Null)]) = Inl TypeError
   \<and> typed ''https://example.org/graphql'' ''AnimeList''
       [(''userId'', ZodType 0 (Some ''Int'') []), (''type'', ZodType 1 None [])]
       (Object [(''Viewer'', Null)])
     = Inl (Error ''variable type type not named'' None)"
proof -
  let ?vars = "[(''userId'', ZodType 0 (Some ''Int'') []), (''type'', ZodType 1 None [])]"
  have h1: "\<forall>vt \<in> set ?vars. name_of (snd vt) \<noteq> Inl TypeError" by simp
  have h2: "find (\<lambda>vt. name_of (snd vt) = Inr None) ?vars = Some (''type'', ZodType 1 None [])"
    by simp
  have b: "buildGraphQLQuery (Object [(''Viewer'', Null)]) = Inl TypeError" by simp
  from unnamed_variable_fails_first [OF h1 h2, of "''https://example.org/graphql''"
      "''AnimeList''" "Object [(''Viewer'', Null)]"] h2 b
  show ?thesis by simp
qed

text \<open>
  C6, as stated: the variable list is rendered \<^verbatim>\<open>($v1: Type1, $v2: Type2, ...)\<close>. The
  source writes \<^verbatim>\<open>$v:Type\<close> and joins with a bare comma, so the text differs from the
  specification's by its spaces.
\<close>

theorem variable_list_counterexample:
  "typed ''https://example.org/graphql'' ''AnimeList''
     [(''userId'', ZodType 0 (Some ''Int'') []), (''type'', ZodType 1 (Some ''MediaType'') [])]
     (Object [(''a'', ZodType 2 None [])])
   = Inr \<lparr>url = ''https://example.org/graphql'',
          query = ''query AnimeList($userId:Int,$type:MediaType) {a}'',
          schema = Some (ZodObject [(''a'', ZodLeaf (ZodType 2 None []))])\<rparr>
   \<and> ''query AnimeList($userId:Int,$type:MediaType) {a}''
     \<noteq> ''query AnimeList''
         @ spec_variable_list [(''userId'', ''Int''), (''type'', ''MediaType'')] @ '' {a}''"
  by (simp add: typed_def variable_part_def spec_variable_list_def)

lemma variable_parts_named:
  "variable_parts (map (\<lambda>(v, i, ty, ps). (v, ZodType i (Some ty) ps)) vs)
     = Inr (map (\<lambda>(v, i, ty, ps). ''$'' @ v @ '':'' @ ty) vs)"
  by (induction vs) (auto simp: variable_part_def)

text \<open>
  C6, amended. When every variable of a non-empty variable set is a schema with a
  type name and both compilers succeed on the shape, the query text is \<^verbatim>\<open>query\<close>, the
  operation name, then \<^verbatim>\<open>($v1:Type1,$v2:Type2,...)\<close> with one entry per variable in
  the order of the set and no spaces, then the body in braces.
\<close>

theorem variable_list_rendering:
  assumes "vs \<noteq> []"
    and "variables = map (\<lambda>(v, i, ty, ps). (v, ZodType i (Some ty) ps)) vs"
    and "buildGraphQLQuery shape = Inr body"
    and "createZodSchemaFromShape shape = Inr sch"
  shows "typed endpoint name variables shape
           = Inr \<lparr>url = endpoint,
                  query = ''query '' @ name @ ''(''
                          @ join '','' (map (\<lambda>(v, i, ty, ps). ''$'' @ v @ '':'' @ ty) vs)
                          @ '')'' @ '' {'' @ body @ ''}'',
                  schema = Some sch\<rparr>"
  using assms by (simp add: typed_def variable_parts_named)

theorem variable_list_rendering_witness:
  "typed ''https://graphql.anilist.co'' ''AnimeList''
     [(''userId'', ZodType 0 (Some ''Int'') []), (''type'', ZodType 1 (Some ''MediaType'') [])]
     (Object [(''Viewer'', Object [(''name'', ZodType 2 None [])])])
   = Inr \<lparr>url = ''https://graphql.anilist.co'',
          query = ''query AnimeList($userId:Int,$type:MediaType) {Viewer { name }}'',
          schema = Some (ZodObject [(''Viewer'',
                     ZodObject [(''name'', ZodLeaf (ZodType 2 None []))])])\<rparr>"
proof -
  let ?vs = "[(''userId'', 0, ''Int'', []), (''type'', 1, ''MediaType'', [])]
               :: (string \<times> nat \<times> string \<times> (string \<times> jsval) list) list"
  let ?shape = "Object [(''Viewer'', Object [(''name'', ZodType 2 None [])])]"
  have h1: "?vs \<noteq> []" by simp
  have h2: "[(''userId'', ZodType 0 (Some ''Int'') []), (''type'', ZodType 1 (Some ''MediaType'') [])]
              = map (\<lambda>(v, i, ty, ps). (v, ZodType i (Some ty) ps)) ?vs" by simp
  have h3: "buildGraphQLQuery ?shape = Inr ''Viewer { name }''"
    by (simp add: argsString_of_def)
  have h4: "createZodSchemaFromShape ?shape
              = Inr (ZodObject [(''Viewer'', ZodObject [(''name'', ZodLeaf (ZodType 2 None []))])])"
    by simp
  from variable_list_rendering [OF h1 h2 h3 h4, of "''https://graphql.anilist.co''" "''AnimeList''"]
  show ?thesis by simp
qed

text \<open>
  C9. The claim: a value of the shape that is neither a schema, nor an array node,
  nor an object node makes construction fail with an error that names the key and
  the kind. An empty array is none of the three, yet is compiled as an object without
  fields: construction succeeds. A \<^verbatim>\<open>null\<close> makes \<^verbatim>\<open>buildGraphQLQuery\<close> raise a
  \<^verbatim>\<open>TypeError\<close> on reading \<^verbatim>\<open>_args\<close>, which names neither key nor kind.
\<close>

theorem malformed_values_slip_through:
  "typed ''https://example.org/graphql'' ''Q'' [] (Object [(''a'', Array [])])
     = Inr \<lparr>url = ''https://example.org/graphql'', query = ''query Q {a {  }}'',
            schema = Some (ZodObject [(''a'', ZodObject [])])\<rparr>
   \<and> typed ''https://example.org/graphql'' ''Q'' [] (Object [(''a'', Null)]) = Inl TypeError"
  by (simp add: typed_def argsString_of_def indexed_def)

text \<open>
  What the source does report: a value whose \<^verbatim>\<open>typeof\<close> is not \<^verbatim>\<open>object\<close> (a string, a
  number, a boolean, \<^verbatim>\<open>undefined\<close>, a function).
\<close>

lemma primitive_value_reported:
  assumes "key \<noteq> ''_args''" and "typeof v \<noteq> ''object''"
  shows "typed endpoint name [] (Object [(key, v)])
           = Inl (Error (''unexpected type <'' @ typeof v @ ''> in query shape key [''
                          @ key @ '']'') None)"
  using assms by (cases v) (auto simp: typed_def)

section \<open>Properties of the query compiler\<close>

text \<open>
  The loop only appends to \<open>queryParts\<close>, so what it pushes for a list of entries does
  not depend on what is already there, and the entries are handled one after the other.
\<close>

lemma buildGraphQLQuery_loop_acc:
  "buildGraphQLQuery_loop es acc =
     (case buildGraphQLQuery_loop es [] of Inl e \<Rightarrow> Inl e | Inr ps \<Rightarrow> Inr (acc @ ps))"
proof (induction es arbitrary: acc)
  case Nil
  then show ?case by simp
next
  case (Cons kv rest)
  obtain key v where kv: "kv = (key, v)" by (cases kv)
  have ih0: "buildGraphQLQuery_loop rest acc =
     (case buildGraphQLQuery_loop rest [] of Inl e \<Rightarrow> Inl e | Inr ps \<Rightarrow> Inr (acc @ ps))"
    by (rule Cons.IH)
  have ih1: "buildGraphQLQuery_loop rest [p] =
     (case buildGraphQLQuery_loop rest [] of Inl e \<Rightarrow> Inl e | Inr ps \<Rightarrow> Inr (p # ps))" for p
    using Cons.IH [of "[p]"] by (simp split: sum.splits)
  have ih2: "buildGraphQLQuery_loop rest (acc @ [p]) =
     (case buildGraphQLQuery_loop rest [] of Inl e \<Rightarrow> Inl e | Inr ps \<Rightarrow> Inr (acc @ p # ps))" for p
    using Cons.IH [of "acc @ [p]"] by (simp split: sum.splits)
  show ?case
    unfolding kv
    by (simp add: ih0 ih1 ih2 split: sum.splits jsval.splits list.splits)
qed

lemma buildGraphQLQuery_loop_append:
  "buildGraphQLQuery_loop (xs @ ys) acc =
     (case buildGraphQLQuery_loop xs acc of Inl e \<Rightarrow> Inl e | Inr ps \<Rightarrow> buildGraphQLQuery_loop ys ps)"
proof (induction xs arbitrary: acc)
  case Nil
  then show ?case by simp
next
  case (Cons kv rest)
  obtain key v where kv: "kv = (key, v)" by (cases kv)
  show ?case
    unfolding kv
    by (simp add: Cons.IH split: sum.splits jsval.splits list.splits)
qed


lemma buildGraphQLQuery_loop_skip_args:
  "buildGraphQLQuery_loop (filter (\<lambda>kv. fst kv \<noteq> ''_args'') es) acc
     = buildGraphQLQuery_loop es acc"
proof (induction es arbitrary: acc)
  case Nil
  then show ?case by simp
next
  case (Cons kv rest)
  obtain key v where kv: "kv = (key, v)" by (cases kv)
  show ?case
    unfolding kv
    by (simp add: Cons.IH split: sum.splits jsval.splits list.splits)
qed

lemma buildGraphQLQuery_Object:
  "buildGraphQLQuery (Object es) =
     (case buildGraphQLQuery_loop es [] of Inl e \<Rightarrow> Inl e | Inr ps \<Rightarrow> Inr (join '' '' ps))"
  by simp

lemma buildGraphQLQuery_loop_middle:
  assumes one: "buildGraphQLQuery_loop [kv] [] = (case r of Inl e \<Rightarrow> Inl e | Inr p \<Rightarrow> Inr [p])"
  shows "buildGraphQLQuery_loop (before @ kv # after) [] =
     (case buildGraphQLQuery_loop before [] of
        Inl e \<Rightarrow> Inl e
      | Inr ps \<Rightarrow>
          (case r of
             Inl e \<Rightarrow> Inl e
           | Inr p \<Rightarrow>
               (case buildGraphQLQuery_loop after [] of
                  Inl e \<Rightarrow> Inl e
                | Inr qs \<Rightarrow> Inr (ps @ [p] @ qs))))"
proof (cases "buildGraphQLQuery_loop before []")
  case (Inl e)
  then show ?thesis by (simp add: buildGraphQLQuery_loop_append)
next
  case before: (Inr ps)
  have step: "buildGraphQLQuery_loop (before @ kv # after) [] =
      (case buildGraphQLQuery_loop [kv] ps of
         Inl e \<Rightarrow> Inl e | Inr ps' \<Rightarrow> buildGraphQLQuery_loop after ps')"
    using before buildGraphQLQuery_loop_append [of before "[kv] @ after" "[]"]
      buildGraphQLQuery_loop_append [of "[kv]" after ps] by simp
  show ?thesis
  proof (cases r)
    case (Inl e)
    with one have "buildGraphQLQuery_loop [kv] ps = Inl e"
      by (subst buildGraphQLQuery_loop_acc) simp
    with step before Inl show ?thesis by simp
  next
    case (Inr p)
    with one have "buildGraphQLQuery_loop [kv] ps = Inr (ps @ [p])"
      by (subst buildGraphQLQuery_loop_acc) simp
    with step have "buildGraphQLQuery_loop (before @ kv # after) [] =
        buildGraphQLQuery_loop after (ps @ [p])" by simp
    also have "\<dots> = (case buildGraphQLQuery_loop after [] of
        Inl e \<Rightarrow> Inl e | Inr qs \<Rightarrow> Inr ((ps @ [p]) @ qs))"
      by (rule buildGraphQLQuery_loop_acc)
    finally show ?thesis using before Inr by (simp split: sum.splits)
  qed
qed

text \<open>
  C8. A child \<open>name\<close> whose value is a one-element array contributes, wherever it stands
  among its siblings, exactly the part \<^verbatim>\<open>name { sel }\<close>, with \<open>sel\<close> the text compiled from
  the element; if the element does not compile, nothing is produced. The text is a
  function of the shape alone: \<^verbatim>\<open>buildGraphQLQuery\<close> takes no other argument, so no
  response can bear on it.
\<close>

theorem array_node_selection:
  assumes "name \<noteq> ''_args''"
  shows "buildGraphQLQuery (Object (before @ (name, Array [template]) # after)) =
     (case buildGraphQLQuery_loop before [] of
        Inl e \<Rightarrow> Inl e
      | Inr ps \<Rightarrow>
          (case buildGraphQLQuery template of
             Inl e \<Rightarrow> Inl e
           | Inr sel \<Rightarrow>
               (case buildGraphQLQuery_loop after [] of
                  Inl e \<Rightarrow> Inl e
                | Inr qs \<Rightarrow> Inr (join '' '' (ps @ [name @ '' { '' @ sel @ '' }''] @ qs)))))"
proof -
  have "buildGraphQLQuery_loop [(name, Array [template])] [] =
     (case (case buildGraphQLQuery template of Inl e \<Rightarrow> Inl e
            | Inr sel \<Rightarrow> Inr (name @ '' { '' @ sel @ '' }'')) of
        Inl e \<Rightarrow> Inl e | Inr p \<Rightarrow> Inr [p])"
    using assms by (simp split: sum.splits)
  from buildGraphQLQuery_loop_middle [OF this, of before after]
  show ?thesis
    unfolding buildGraphQLQuery_Object by (simp split: sum.splits)
qed

text \<open>The template \<^verbatim>\<open>{media: {title: Leaf}}\<close> under the key \<^verbatim>\<open>field\<close>.\<close>

theorem array_node_selection_witness:
  "buildGraphQLQuery
     (Object [(''field'', Array [Object [(''media'', Object [(''title'', ZodType 0 None [])])]])])
   = Inr ''field { media { title } }''"
proof -
  have n: "''field'' \<noteq> ''_args''" by simp
  have t: "buildGraphQLQuery (Object [(''media'', Object [(''title'', ZodType 0 None [])])])
             = Inr ''media { title }''"
    by (simp add: argsString_of_def)
  from array_node_selection [OF n, of "[]" _ "[]"] t show ?thesis
    by (simp del: buildGraphQLQuery.simps)
qed

lemma argsString_of_mapping:
  "argsString_of (Object (map (\<lambda>(a, v). (a, String v)) as)) = spec_arguments as"
proof -
  have "map (\<lambda>(argName, argValue). argName @ '': '' @ ToString argValue)
          (map (\<lambda>(a, v). (a, String v)) as) = map (\<lambda>(a, v). a @ '': '' @ v) as"
    by (induction as) auto
  then show ?thesis
    by (simp add: argsString_of_def spec_arguments_def del: map_map)
qed

lemma argsString_of_Undefined: "argsString_of Undefined = []"
  by (simp add: argsString_of_def)

text \<open>
  C2. A child \<open>name\<close> whose value is a nested mapping \<open>entries\<close> (a plain object that
  is not taken for a schema), with \<^verbatim>\<open>_args\<close> either absent or the mapping \<open>as\<close> of
  argument names to strings, contributes exactly the part
  \<^verbatim>\<open>name(arg1: val1, arg2: val2, ...) { sel }\<close>: the arguments are in the order of \<open>as\<close>, the
  parentheses are left out when \<^verbatim>\<open>_args\<close> is absent or empty, and \<open>sel\<close> is the text
  compiled from the entries other than \<^verbatim>\<open>_args\<close>, so \<^verbatim>\<open>_args\<close> is not a field.
\<close>

theorem object_node_arguments:
  assumes "name \<noteq> ''_args''"
    and "\<not> isZodSchema (Object entries)"
    and "map_of entries ''_args'' = None \<and> as = []
         \<or> map_of entries ''_args'' = Some (Object (map (\<lambda>(a, v). (a, String v)) as))"
  shows "buildGraphQLQuery (Object (before @ (name, Object entries) # after)) =
     (case buildGraphQLQuery_loop before [] of
        Inl e \<Rightarrow> Inl e
      | Inr ps \<Rightarrow>
          (case buildGraphQLQuery (Object (filter (\<lambda>kv. fst kv \<noteq> ''_args'') entries)) of
             Inl e \<Rightarrow> Inl e
           | Inr sel \<Rightarrow>
               (case buildGraphQLQuery_loop after [] of
                  Inl e \<Rightarrow> Inl e
                | Inr qs \<Rightarrow>
                    Inr (join '' '' (ps @ [name @ spec_arguments as @ '' { '' @ sel @ '' }'']
                                        @ qs)))))"
proof -
  let ?children = "Object (filter (\<lambda>kv. fst kv \<noteq> ''_args'') entries)"
  have same: "buildGraphQLQuery (Object entries) = buildGraphQLQuery ?children"
    unfolding buildGraphQLQuery_Object buildGraphQLQuery_loop_skip_args ..
  have args: "argsString_of (case map_of entries ''_args'' of None \<Rightarrow> Undefined | Some v \<Rightarrow> v)
                = spec_arguments as"
  proof -
    have "argsString_of Undefined = spec_arguments []"
      by (simp add: argsString_of_Undefined spec_arguments_def)
    with assms(3) show ?thesis
      by (auto simp: argsString_of_mapping)
  qed
  have "buildGraphQLQuery_loop [(name, Object entries)] [] =
     (case (case buildGraphQLQuery ?children of Inl e \<Rightarrow> Inl e
            | Inr sel \<Rightarrow> Inr (name @ spec_arguments as @ '' { '' @ sel @ '' }'')) of
        Inl e \<Rightarrow> Inl e | Inr p \<Rightarrow> Inr [p])"
    using assms(1,2) args same
    by (simp del: buildGraphQLQuery.simps isZodSchema.simps split: sum.splits)
  from buildGraphQLQuery_loop_middle [OF this, of before after]
  show ?thesis
    unfolding buildGraphQLQuery_Object [of "before @ (name, Object entries) # after"]
    by (simp del: buildGraphQLQuery.simps split: sum.splits)
qed

text \<open>
  The example of the specification, \<^verbatim>\<open>_args = {userId: "$userId", type: "$type"}\<close> with
  children \<^verbatim>\<open>{a: Leaf}\<close>, then the same node without \<^verbatim>\<open>_args\<close> and with an empty one.
\<close>

theorem object_node_arguments_witness:
  "buildGraphQLQuery
     (Object [(''name'',
        Object [(''_args'', Object [(''userId'', String ''$userId''), (''type'', String ''$type'')]),
                (''a'', ZodType 0 None [])])])
     = Inr ''name(userId: $userId, type: $type) { a }''
   \<and> buildGraphQLQuery (Object [(''name'', Object [(''a'', ZodType 0 None [])])])
     = Inr ''name { a }''
   \<and> buildGraphQLQuery (Object [(''name'', Object [(''_args'', Object []), (''a'', ZodType 0 None [])])])
     = Inr ''name { a }''"
proof -
  let ?leaf = "ZodType 0 None []"
  let ?args = "[(''userId'', ''$userId''), (''type'', ''$type'')]"
  let ?f1 = "[(''_args'', Object (map (\<lambda>(a, v). (a, String v)) ?args)), (''a'', ?leaf)]"
  let ?f2 = "[(''a'', ?leaf)]"
  let ?f3 = "[(''_args'', Object (map (\<lambda>(a, v). (a, String v)) [])), (''a'', ?leaf)]"
  have n: "''name'' \<noteq> ''_args''" by simp
  have z1: "\<not> isZodSchema (Object ?f1)" by simp
  have z2: "\<not> isZodSchema (Object ?f2)" by simp
  have z3: "\<not> isZodSchema (Object ?f3)" by simp
  have a1: "map_of ?f1 ''_args'' = None \<and> ?args = []
            \<or> map_of ?f1 ''_args'' = Some (Object (map (\<lambda>(a, v). (a, String v)) ?args))"
    by simp
  have a2: "map_of ?f2 ''_args'' = None \<and> ([] :: (string \<times> string) list) = []
            \<or> map_of ?f2 ''_args'' = Some (Object (map (\<lambda>(a, v). (a, String v)) []))"
    by simp
  have a3: "map_of ?f3 ''_args'' = None \<and> ([] :: (string \<times> string) list) = []
            \<or> map_of ?f3 ''_args'' = Some (Object (map (\<lambda>(a, v). (a, String v)) []))"
    by simp
  have c: "buildGraphQLQuery (Object [(''a'', ?leaf)]) = Inr ''a''" by simp
  from object_node_arguments [OF n z1 a1, of "[]" "[]"]
       object_node_arguments [OF n z2 a2, of "[]" "[]"]
       object_node_arguments [OF n z3 a3, of "[]" "[]"] c
  show ?thesis
    by (simp add: spec_arguments_def del: buildGraphQLQuery.simps)
qed

section \<open>The compilers on Shape Trees\<close>

lemma createZodSchemaFromShape_Object:
  "createZodSchemaFromShape (Object es) =
     (case createZodSchemaFromShape_loop es [] of
        Inl e \<Rightarrow> Inl e | Inr schemaShape \<Rightarrow> Inr (ZodObject schemaShape))"
  by simp

lemma set_prop_fresh:
  assumes "k \<noteq> ''__proto__''" and "k \<notin> set (map fst acc)"
  shows "set_prop acc k v = acc @ [(k, v)]"
proof -
  from assms(2) have "put_prop acc k v = acc @ [(k, v)]"
    by (induction acc) auto
  with assms(1) show ?thesis by simp
qed

lemma typeof_embed_any: "typeof (embed t) = ''object''"
  by (cases t) simp_all

lemma map_of_embed_entries:
  "map_of (embed_entries fs) k = Some v \<Longrightarrow> \<exists>t. v = embed t"
  by (induction fs) (auto split: if_splits)

lemma embedded_object_is_no_schema: "\<not> isZodSchema (Object (embed_entries fs))"
proof -
  have "typeof (case map_of (embed_entries fs) ''parse'' of None \<Rightarrow> Undefined | Some v \<Rightarrow> v)
          \<noteq> ''function''"
    by (auto split: option.splits dest!: map_of_embed_entries simp: typeof_embed_any)
  then show ?thesis by simp
qed

lemma createZodSchemaFromShape_refines:
  "(well_formed t \<longrightarrow> mapping_templates t \<longrightarrow> storable_keys t \<longrightarrow>
      (\<forall>fs. t = ObjectNode fs \<longrightarrow> createZodSchemaFromShape (embed t) = Inr (spec_validator t))
      \<and> (\<forall>k rest acc. k \<noteq> ''_args'' \<longrightarrow>
            createZodSchemaFromShape_loop ((k, embed t) # rest) acc
              = createZodSchemaFromShape_loop rest (set_prop acc k (spec_validator t))))"
  "(well_formed_entries es \<longrightarrow> mapping_templates_entries es \<longrightarrow>
      storable_keys_entries es \<longrightarrow> distinct (map fst es) \<longrightarrow>
      (\<forall>acc. set (map fst es) \<inter> set (map fst acc) = {} \<longrightarrow>
         createZodSchemaFromShape_loop (embed_entries es) acc = Inr (acc @ spec_record es)))"
proof (induction t and es rule: embed_embed_entries.induct)
  case (1 i n ps)
  show ?case by simp
next
  case (2 t)
  show ?case
  proof (intro impI conjI allI)
    fix k rest and acc :: "(string \<times> zod_schema) list"
    assume wf: "well_formed (ArrayNode t)" and mt: "mapping_templates (ArrayNode t)"
      and sk: "storable_keys (ArrayNode t)" and k: "k \<noteq> ''_args''"
    from mt obtain fs where t: "t = ObjectNode fs" by (cases t) auto
    from wf mt sk 2 t have "createZodSchemaFromShape (embed t) = Inr (spec_validator t)"
      by simp
    with k show "createZodSchemaFromShape_loop ((k, embed (ArrayNode t)) # rest) acc
        = createZodSchemaFromShape_loop rest (set_prop acc k (spec_validator (ArrayNode t)))"
      by (simp del: createZodSchemaFromShape.simps set_prop.simps)
  qed simp
next
  case (3 fs)
  show ?case
  proof (intro impI conjI allI)
    assume wf: "well_formed (ObjectNode fs)" and mt: "mapping_templates (ObjectNode fs)"
      and sk: "storable_keys (ObjectNode fs)"
    with 3 have "createZodSchemaFromShape_loop (embed_entries fs) [] = Inr (spec_record fs)"
      by simp
    then have root: "createZodSchemaFromShape (embed (ObjectNode fs))
        = Inr (spec_validator (ObjectNode fs))"
      by (simp add: createZodSchemaFromShape_Object del: createZodSchemaFromShape.simps)
    { fix fs' assume "ObjectNode fs = ObjectNode fs'"
      from root show "createZodSchemaFromShape (embed (ObjectNode fs))
        = Inr (spec_validator (ObjectNode fs))" . }
    fix k rest and acc :: "(string \<times> zod_schema) list"
    assume k: "k \<noteq> ''_args''"
    from k root embedded_object_is_no_schema [of fs]
    show "createZodSchemaFromShape_loop ((k, embed (ObjectNode fs)) # rest) acc
        = createZodSchemaFromShape_loop rest (set_prop acc k (spec_validator (ObjectNode fs)))"
      by (simp del: createZodSchemaFromShape.simps isZodSchema.simps set_prop.simps)
  qed
next
  case (4 as)
  show ?case by simp
next
  case 5
  show ?case by simp
next
  case (6 k t fs)
  show ?case
  proof (intro impI allI)
    fix acc :: "(string \<times> zod_schema) list"
    assume wf: "well_formed_entries ((k, t) # fs)"
      and mt: "mapping_templates_entries ((k, t) # fs)"
      and sk: "storable_keys_entries ((k, t) # fs)"
      and d: "distinct (map fst ((k, t) # fs))"
      and fresh: "set (map fst ((k, t) # fs)) \<inter> set (map fst acc) = {}"
    from sk have proto: "k \<noteq> ''__proto__''" by simp
    from wf mt sk d have rest: "\<And>acc'. set (map fst fs) \<inter> set (map fst acc') = {} \<Longrightarrow>
        createZodSchemaFromShape_loop (embed_entries fs) acc' = Inr (acc' @ spec_record fs)"
      using 6(2) by simp
    show "createZodSchemaFromShape_loop (embed_entries ((k, t) # fs)) acc
        = Inr (acc @ spec_record ((k, t) # fs))"
    proof (cases "k = ''_args''")
      case True
      with fresh rest [of acc] show ?thesis by simp
    next
      case False
      with wf mt sk 6(1)
      have "createZodSchemaFromShape_loop ((k, embed t) # embed_entries fs) acc
          = createZodSchemaFromShape_loop (embed_entries fs) (set_prop acc k (spec_validator t))"
        by simp
      moreover from fresh proto
      have "set_prop acc k (spec_validator t) = acc @ [(k, spec_validator t)]"
        by (intro set_prop_fresh) auto
      moreover from d fresh
      have "set (map fst fs) \<inter> set (map fst (acc @ [(k, spec_validator t)])) = {}"
        by auto
      ultimately show ?thesis using rest False by (simp del: set_prop.simps)
    qed
  qed
qed

text \<open>
  C3, as stated: for every well-formed Shape Tree the compiled validator is the
  specification's, so that an array node becomes the validator of sequences of its
  template's compiled validator. For the tree \<^verbatim>\<open>{tags: [Leaf]}\<close> the source does not
  keep the leaf: it compiles the template with \<^verbatim>\<open>createZodSchemaFromShape\<close>, which
  enters the schema object as a mapping of its own properties (here the three members
  that \<^verbatim>\<open>isZodSchema\<close> looks for) and either returns an object validator or throws.
\<close>

theorem validator_compiler_counterexample:
  "well_formed (ObjectNode [(''tags'', ArrayNode (Leaf 0 None
       [(''_def'', Object []), (''parse'', Function []), (''safeParse'', Function [])]))])
   \<and> createZodSchemaFromShape (embed (ObjectNode [(''tags'', ArrayNode (Leaf 0 None
       [(''_def'', Object []), (''parse'', Function []), (''safeParse'', Function [])]))]))
       \<noteq> Inr (spec_validator (ObjectNode [(''tags'', ArrayNode (Leaf 0 None
       [(''_def'', Object []), (''parse'', Function []), (''safeParse'', Function [])]))]))"
  by simp

text \<open>The same holds whatever own properties the leaf has: the result is never the leaf.\<close>

lemma leaf_template_never_kept:
  "k \<noteq> ''_args'' \<Longrightarrow>
   createZodSchemaFromShape (embed (ObjectNode [(k, ArrayNode (Leaf i n ps))]))
     \<noteq> Inr (spec_validator (ObjectNode [(k, ArrayNode (Leaf i n ps))]))"
  by (simp split: sum.splits)

text \<open>
  A field named \<^verbatim>\<open>__proto__\<close> is lost: the assignment to \<^verbatim>\<open>schemaShape\<close> sets the
  prototype of the record and adds no property, so the trees of the amended claim have
  no such field.
\<close>

lemma proto_key_not_stored:
  "createZodSchemaFromShape
     (Object [(''__proto__'', ZodType 0 None []), (''b'', ZodType 1 None [])])
   = Inr (ZodObject [(''b'', ZodLeaf (ZodType 1 None []))])"
  by simp

text \<open>
  C3, amended. For every well-formed Shape Tree whose root is an object node, in
  which every template of an array node is an object node and no field is named
  \<^verbatim>\<open>__proto__\<close>, \<^verbatim>\<open>createZodSchemaFromShape\<close> succeeds and returns the specification's
  validator: leaves unchanged, \<^verbatim>\<open>z.array\<close> of the compiled template for an array node,
  \<^verbatim>\<open>z.object\<close> over the children other than \<^verbatim>\<open>_args\<close> for an object node.
\<close>

theorem validator_compiler_refines:
  assumes "well_formed (ObjectNode fs)" and "mapping_templates (ObjectNode fs)"
    and "storable_keys (ObjectNode fs)"
  shows "createZodSchemaFromShape (embed (ObjectNode fs)) = Inr (spec_validator (ObjectNode fs))"
  using createZodSchemaFromShape_refines(1) [of "ObjectNode fs"] assms by blast

text \<open>A part of the README's query: an object with arguments holding an array of objects.\<close>

theorem validator_compiler_refines_witness:
  "createZodSchemaFromShape
     (Object [(''MediaListCollection'',
        Object [(''_args'', Object [(''userId'', String ''$userId''), (''type'', String ''$type'')]),
                (''lists'', Array [Object [(''name'', ZodType 0 None []),
                                           (''isCustomList'', ZodType 1 None [])]])])])
   = Inr (ZodObject [(''MediaListCollection'',
        ZodObject [(''lists'', ZodArray (ZodObject [(''name'', ZodLeaf (ZodType 0 None [])),
                                      (''isCustomList'', ZodLeaf (ZodType 1 None []))]))])])"
proof -
  let ?fs = "[(''MediaListCollection'',
        ObjectNode [(''_args'', ArgList [(''userId'', ''$userId''), (''type'', ''$type'')]),
                    (''lists'', ArrayNode (ObjectNode [(''name'', Leaf 0 None []),
                                                      (''isCustomList'', Leaf 1 None [])]))])]"
  have wf: "well_formed (ObjectNode ?fs)" by simp
  have mt: "mapping_templates (ObjectNode ?fs)" by simp
  have sk: "storable_keys (ObjectNode ?fs)" by simp
  from validator_compiler_refines [OF wf mt sk] show ?thesis
    by (simp del: createZodSchemaFromShape.simps)
qed

lemma map_of_embed_entries_args:
  "well_formed_entries fs \<Longrightarrow>
   argsString_of (case map_of (embed_entries fs) ''_args'' of None \<Rightarrow> Undefined | Some v \<Rightarrow> v)
     = spec_arguments_of fs"
proof (induction fs)
  case Nil
  then show ?case by (simp add: spec_arguments_of_def argsString_of_Undefined)
next
  case (Cons kt fs)
  obtain k t where kt: "kt = (k, t)" by (cases kt)
  show ?case
  proof (cases "k = ''_args''")
    case True
    with Cons.prems kt obtain as where "t = ArgList as" by (cases t) auto
    with True kt show ?thesis
      by (simp add: spec_arguments_of_def argsString_of_mapping)
  next
    case False
    with Cons kt show ?thesis by (simp add: spec_arguments_of_def)
  qed
qed

lemma buildGraphQLQuery_refines:
  "(well_formed t \<longrightarrow> mapping_templates t \<longrightarrow>
      (\<forall>fs. t = ObjectNode fs \<longrightarrow> buildGraphQLQuery (embed t) = Inr (spec_selection t))
      \<and> (\<forall>k rest acc. k \<noteq> ''_args'' \<longrightarrow>
            buildGraphQLQuery_loop ((k, embed t) # rest) acc
              = buildGraphQLQuery_loop rest (acc @ [spec_field k t])))"
  "(well_formed_entries es \<longrightarrow> mapping_templates_entries es \<longrightarrow>
      (\<forall>acc. buildGraphQLQuery_loop (embed_entries es) acc = Inr (acc @ spec_parts es)))"
proof (induction t and es rule: embed_embed_entries.induct)
  case (1 i n ps)
  show ?case by simp
next
  case (2 t)
  show ?case
  proof (intro impI conjI allI)
    fix k rest acc
    assume wf: "well_formed (ArrayNode t)" and mt: "mapping_templates (ArrayNode t)"
      and k: "k \<noteq> ''_args''"
    from mt obtain fs where t: "t = ObjectNode fs" by (cases t) auto
    from wf mt 2 t have "buildGraphQLQuery (embed t) = Inr (spec_selection t)"
      by simp
    with k show "buildGraphQLQuery_loop ((k, embed (ArrayNode t)) # rest) acc
        = buildGraphQLQuery_loop rest (acc @ [spec_field k (ArrayNode t)])"
      by (simp del: buildGraphQLQuery.simps)
  qed simp
next
  case (3 fs)
  show ?case
  proof (intro impI conjI allI)
    assume wf: "well_formed (ObjectNode fs)" and mt: "mapping_templates (ObjectNode fs)"
    with 3 have "buildGraphQLQuery_loop (embed_entries fs) [] = Inr (spec_parts fs)"
      by simp
    then have root: "buildGraphQLQuery (embed (ObjectNode fs))
        = Inr (spec_selection (ObjectNode fs))"
      by (simp add: buildGraphQLQuery_Object del: buildGraphQLQuery.simps)
    { fix fs' assume "ObjectNode fs = ObjectNode fs'"
      from root show "buildGraphQLQuery (embed (ObjectNode fs))
        = Inr (spec_selection (ObjectNode fs))" . }
    fix k rest acc
    assume k: "k \<noteq> ''_args''"
    from wf have args: "argsString_of (case map_of (embed_entries fs) ''_args'' of
        None \<Rightarrow> Undefined | Some v \<Rightarrow> v) = spec_arguments_of fs"
      by (simp add: map_of_embed_entries_args)
    from k root args embedded_object_is_no_schema [of fs]
    show "buildGraphQLQuery_loop ((k, embed (ObjectNode fs)) # rest) acc
        = buildGraphQLQuery_loop rest (acc @ [spec_field k (ObjectNode fs)])"
      by (simp del: buildGraphQLQuery.simps isZodSchema.simps)
  qed
next
  case (4 as)
  show ?case by simp
next
  case 5
  show ?case by simp
next
  case (6 k t fs)
  show ?case
  proof (intro impI allI)
    fix acc
    assume wf: "well_formed_entries ((k, t) # fs)"
      and mt: "mapping_templates_entries ((k, t) # fs)"
    from wf mt have rest: "\<And>acc'.
        buildGraphQLQuery_loop (embed_entries fs) acc' = Inr (acc' @ spec_parts fs)"
      using 6(2) by simp
    show "buildGraphQLQuery_loop (embed_entries ((k, t) # fs)) acc
        = Inr (acc @ spec_parts ((k, t) # fs))"
    proof (cases "k = ''_args''")
      case True
      with rest [of acc] show ?thesis by simp
    next
      case False
      with wf mt 6(1) have "buildGraphQLQuery_loop ((k, embed t) # embed_entries fs) acc
          = buildGraphQLQuery_loop (embed_entries fs) (acc @ [spec_field k t])"
        by simp
      with rest False show ?thesis by simp
    qed
  qed
qed


lemma map_of_embed_entries_no_args:
  "no_args_entries fs \<Longrightarrow> map_of (embed_entries fs) ''_args'' = None"
  by (induction fs) auto

lemma buildGraphQLQuery_loop_Cons:
  "buildGraphQLQuery_loop (kv # rest) [] =
     (case buildGraphQLQuery_loop [kv] [] of
        Inl e \<Rightarrow> Inl e
      | Inr ps \<Rightarrow>
          (case buildGraphQLQuery_loop rest [] of Inl e \<Rightarrow> Inl e | Inr qs \<Rightarrow> Inr (ps @ qs)))"
proof -
  have step: "buildGraphQLQuery_loop ([kv] @ rest) [] =
     (case buildGraphQLQuery_loop [kv] [] of
        Inl e \<Rightarrow> Inl e | Inr ps \<Rightarrow> buildGraphQLQuery_loop rest ps)"
    by (rule buildGraphQLQuery_loop_append)
  show ?thesis
  proof (cases "buildGraphQLQuery_loop [kv] []")
    case (Inl e)
    with step show ?thesis by (simp only: sum.case append.simps)
  next
    case (Inr ps)
    with step have "buildGraphQLQuery_loop (kv # rest) [] = buildGraphQLQuery_loop rest ps"
      by (simp only: sum.case append.simps)
    also have "\<dots> =
        (case buildGraphQLQuery_loop rest [] of Inl e \<Rightarrow> Inl e | Inr qs \<Rightarrow> Inr (ps @ qs))"
      by (rule buildGraphQLQuery_loop_acc)
    finally show ?thesis using Inr by (simp only: sum.case)
  qed
qed

lemma single_field_part:
  assumes "k \<noteq> ''_args''" and "well_formed t" and "no_args t"
  shows "(\<exists>e. buildGraphQLQuery_loop [(k, embed t)] [] = Inl e)
       \<or> (\<exists>p. buildGraphQLQuery_loop [(k, embed t)] [] = Inr [p] \<and> field_part k t p)"
proof (cases t)
  case (Leaf i n ps)
  with assms(1) show ?thesis by (simp add: field_part_def)
next
  case (ArrayNode t')
  with assms(1) show ?thesis
    by (cases "buildGraphQLQuery (embed t')")
       (simp_all add: field_part_def del: buildGraphQLQuery.simps)
next
  case (ObjectNode fs)
  with assms(3) have "map_of (embed_entries fs) ''_args'' = None"
    by (simp add: map_of_embed_entries_no_args)
  with assms(1) ObjectNode embedded_object_is_no_schema [of fs] show ?thesis
    by (cases "buildGraphQLQuery (Object (embed_entries fs))")
       (simp_all add: field_part_def argsString_of_Undefined
          del: buildGraphQLQuery.simps isZodSchema.simps)
next
  case (ArgList as)
  with assms(2) show ?thesis by simp
qed

lemma fields_in_order:
  assumes "well_formed_entries fs" and "no_args_entries fs"
  shows "(\<exists>e. buildGraphQLQuery_loop (embed_entries fs) [] = Inl e)
       \<or> (\<exists>parts. buildGraphQLQuery_loop (embed_entries fs) [] = Inr parts
              \<and> list_all2 (\<lambda>(k, t) p. field_part k t p) fs parts)"
  using assms
proof (induction fs)
  case Nil
  then show ?case by simp
next
  case (Cons kt fs)
  obtain k t where kt: "kt = (k, t)" by (cases kt)
  from Cons.prems kt have k: "k \<noteq> ''_args''" and wf: "well_formed t" and na: "no_args t"
    and wfs: "well_formed_entries fs" and nas: "no_args_entries fs"
    by auto
  let ?rel = "\<lambda>(k, t) p. field_part k t p"
  let ?one = "buildGraphQLQuery_loop [(k, embed t)] []"
  let ?rest = "buildGraphQLQuery_loop (embed_entries fs) []"
  let ?all = "buildGraphQLQuery_loop (embed_entries (kt # fs)) []"
  have split: "?all =
     (case ?one of Inl e \<Rightarrow> Inl e
      | Inr ps \<Rightarrow> (case ?rest of Inl e \<Rightarrow> Inl e | Inr qs \<Rightarrow> Inr (ps @ qs)))"
    unfolding kt embed_entries.simps by (rule buildGraphQLQuery_loop_Cons)
  from single_field_part [OF k wf na] show ?case
  proof
    assume "\<exists>e. ?one = Inl e"
    then obtain e where "?one = Inl e" ..
    with split have "?all = Inl e" by (simp only: sum.case)
    then show ?thesis by blast
  next
    assume "\<exists>p. ?one = Inr [p] \<and> field_part k t p"
    then obtain p where one: "?one = Inr [p]" and p: "field_part k t p" by blast
    from Cons.IH [OF wfs nas] show ?thesis
    proof
      assume "\<exists>e. ?rest = Inl e"
      then obtain e where "?rest = Inl e" ..
      with split one have "?all = Inl e" by (simp only: sum.case)
      then show ?thesis by blast
    next
      assume "\<exists>parts. ?rest = Inr parts \<and> list_all2 ?rel fs parts"
      then obtain parts where rest: "?rest = Inr parts" and rel: "list_all2 ?rel fs parts"
        by blast
      from split one rest have "?all = Inr ([p] @ parts)" by (simp only: sum.case)
      then have "?all = Inr (p # parts)" by (simp only: append.simps)
      moreover from p rel kt have "list_all2 ?rel (kt # fs) (p # parts)" by simp
      ultimately show ?thesis by blast
    qed
  qed
qed

text \<open>
  C7. For a well-formed tree without \<^verbatim>\<open>_args\<close> whose root maps the fields \<open>fs\<close>: when
  every template of an array node is a mapping, the text compiled is exactly the
  specification's selection, in which the fields of every mapping, at every depth, stand
  in the order of that mapping. In general the text is the parts of the fields of the
  root joined by a space, one part per field and in the order of \<open>fs\<close>, the part of a
  leaf being its name and the part of an array or object child its name followed by the
  braces around the text compiled from the template or from the child. Only when some
  template is not a mapping can compilation fail instead (the template is then entered
  as a mapping of whatever own properties it has).
\<close>

theorem sibling_order:
  assumes "well_formed (ObjectNode fs)" and "no_args (ObjectNode fs)"
  shows "(mapping_templates (ObjectNode fs) \<longrightarrow>
            buildGraphQLQuery (embed (ObjectNode fs)) = Inr (spec_selection (ObjectNode fs)))
       \<and> ((\<exists>parts. buildGraphQLQuery (embed (ObjectNode fs)) = Inr (join '' '' parts)
              \<and> list_all2 (\<lambda>(k, t) p. field_part k t p) fs parts)
          \<or> (\<not> mapping_templates (ObjectNode fs)
               \<and> (\<exists>e. buildGraphQLQuery (embed (ObjectNode fs)) = Inl e)))"
proof (intro conjI impI)
  assume "mapping_templates (ObjectNode fs)"
  with assms(1) buildGraphQLQuery_refines(1) [of "ObjectNode fs"]
  show "buildGraphQLQuery (embed (ObjectNode fs)) = Inr (spec_selection (ObjectNode fs))"
    by blast
next
  from assms have wfs: "well_formed_entries fs" and nas: "no_args_entries fs" by simp_all
  have build: "buildGraphQLQuery (embed (ObjectNode fs)) =
      (case buildGraphQLQuery_loop (embed_entries fs) [] of
         Inl e \<Rightarrow> Inl e | Inr ps \<Rightarrow> Inr (join '' '' ps))"
    unfolding embed.simps by (rule buildGraphQLQuery_Object)
  from fields_in_order [OF wfs nas]
  show "(\<exists>parts. buildGraphQLQuery (embed (ObjectNode fs)) = Inr (join '' '' parts)
              \<and> list_all2 (\<lambda>(k, t) p. field_part k t p) fs parts)
          \<or> (\<not> mapping_templates (ObjectNode fs)
               \<and> (\<exists>e. buildGraphQLQuery (embed (ObjectNode fs)) = Inl e))"
  proof
    assume "\<exists>e. buildGraphQLQuery_loop (embed_entries fs) [] = Inl e"
    then obtain e where e: "buildGraphQLQuery_loop (embed_entries fs) [] = Inl e" ..
    have "\<not> mapping_templates (ObjectNode fs)"
    proof
      assume "mapping_templates (ObjectNode fs)"
      with wfs buildGraphQLQuery_refines(2) [of fs]
      have "buildGraphQLQuery_loop (embed_entries fs) [] = Inr (spec_parts fs)" by simp
      with e show False by simp
    qed
    moreover from build e have "buildGraphQLQuery (embed (ObjectNode fs)) = Inl e"
      by (simp only: sum.case)
    ultimately show ?thesis by blast
  next
    assume "\<exists>parts. buildGraphQLQuery_loop (embed_entries fs) [] = Inr parts
              \<and> list_all2 (\<lambda>(k, t) p. field_part k t p) fs parts"
    then obtain parts where "buildGraphQLQuery_loop (embed_entries fs) [] = Inr parts"
      and rel: "list_all2 (\<lambda>(k, t) p. field_part k t p) fs parts" by blast
    with build have "buildGraphQLQuery (embed (ObjectNode fs)) = Inr (join '' '' parts)"
      by (simp only: sum.case)
    with rel show ?thesis by blast
  qed
qed

text \<open>
  Fields inserted in the order \<^verbatim>\<open>zeta\<close>, \<^verbatim>\<open>alpha\<close>, \<^verbatim>\<open>mid\<close>, with nested fields in
  the order \<^verbatim>\<open>y\<close>, \<^verbatim>\<open>x\<close>: the text keeps both orders.
\<close>

theorem sibling_order_witness:
  "well_formed (ObjectNode [(''zeta'', Leaf 0 None []),
                            (''alpha'', ObjectNode [(''y'', Leaf 1 None []), (''x'', Leaf 2 None [])]),
                            (''mid'', ArrayNode (ObjectNode [(''b'', Leaf 3 None []),
                                                            (''a'', Leaf 4 None [])]))])
   \<and> no_args (ObjectNode [(''zeta'', Leaf 0 None []),
                          (''alpha'', ObjectNode [(''y'', Leaf 1 None []), (''x'', Leaf 2 None [])]),
                          (''mid'', ArrayNode (ObjectNode [(''b'', Leaf 3 None []),
                                                          (''a'', Leaf 4 None [])]))])
   \<and> mapping_templates (ObjectNode [(''zeta'', Leaf 0 None []),
                          (''alpha'', ObjectNode [(''y'', Leaf 1 None []), (''x'', Leaf 2 None [])]),
                          (''mid'', ArrayNode (ObjectNode [(''b'', Leaf 3 None []),
                                                          (''a'', Leaf 4 None [])]))])
   \<and> buildGraphQLQuery (Object [(''zeta'', ZodType 0 None []),
                                 (''alpha'', Object [(''y'', ZodType 1 None []),
                                                     (''x'', ZodType 2 None [])]),
                                 (''mid'', Array [Object [(''b'', ZodType 3 None []),
                                                          (''a'', ZodType 4 None [])]])])
       = Inr ''zeta alpha { y x } mid { b a }''"
proof -
  let ?fs = "[(''zeta'', Leaf 0 None []),
              (''alpha'', ObjectNode [(''y'', Leaf 1 None []), (''x'', Leaf 2 None [])]),
              (''mid'', ArrayNode (ObjectNode [(''b'', Leaf 3 None []), (''a'', Leaf 4 None [])]))]"
  have wf: "well_formed (ObjectNode ?fs)" by simp
  have na: "no_args (ObjectNode ?fs)" by simp
  have mt: "mapping_templates (ObjectNode ?fs)" by simp
  have e: "embed (ObjectNode ?fs) = Object [(''zeta'', ZodType 0 None []),
                                 (''alpha'', Object [(''y'', ZodType 1 None []),
                                                     (''x'', ZodType 2 None [])]),
                                 (''mid'', Array [Object [(''b'', ZodType 3 None []),
                                                          (''a'', ZodType 4 None [])]])]"
    by simp
  have s: "spec_selection (ObjectNode ?fs) = ''zeta alpha { y x } mid { b a }''"
    by (simp add: spec_arguments_of_def)
  from sibling_order [OF wf na] mt
  have "buildGraphQLQuery (embed (ObjectNode ?fs)) = Inr (spec_selection (ObjectNode ?fs))"
    by blast
  then have "buildGraphQLQuery (embed (ObjectNode ?fs)) = Inr ''zeta alpha { y x } mid { b a }''"
    by (simp only: s)
  with wf na mt show ?thesis unfolding e by blast
qed

end
